theory Spec2Isabelle
  imports Complex_Main "HOL-Library.Word" "HOL-Library.Log_Nat"
begin

section \<open>Python floats\<close>

text \<open>
  A Python \<open>float\<close> is an IEEE 754 binary64 number.  The finite ones are modelled by the
  real number they denote (so \<open>-0.0\<close> and \<open>0.0\<close>, which compare equal, are one value), and
  every arithmetic operation rounds its exact result to the nearest binary64 number, ties
  to the even significand: \<open>fl\<close>.  The significand has 53 bits; below \<open>2^-1022\<close> the
  spacing stays \<open>2^-1074\<close> (subnormal numbers).  Overflow to \<open>inf\<close> (magnitudes from
  \<open>2^1024\<close>) and \<open>nan\<close> are outside the model: the clock readings and the decoded
  timestamps of this program are far below that range.
\<close>

type_synonym pyfloat = real

definition pow2 :: "int \<Rightarrow> real" where
  "pow2 k = (if 0 \<le> k then 2 ^ nat k else 1 / 2 ^ nat (- k))"

text \<open>The binary exponent of a non-zero number: \<open>pow2 (expo x) \<le> \<bar>x\<bar> < pow2 (expo x + 1)\<close>.\<close>

definition expo :: "real \<Rightarrow> int" where
  "expo x = (if 1 \<le> \<bar>x\<bar> then bitlen \<lfloor>\<bar>x\<bar>\<rfloor> - 1
             else - bitlen (\<lceil>1 / \<bar>x\<bar>\<rceil> - 1))"

definition round_half_even :: "real \<Rightarrow> int" where
  "round_half_even y =
     (let n = \<lfloor>y\<rfloor>; d = y - of_int n
      in if d < 1 / 2 then n else if 1 / 2 < d then n + 1
         else if even n then n else n + 1)"

definition fl :: "real \<Rightarrow> pyfloat" where
  "fl x = (if x = 0 then 0
           else let q = pow2 (max (expo x) (- 1022) - 52)
                in of_int (round_half_even (x / q)) * q)"

text \<open>The exceptions the program can meet.  \<open>KeyboardInterrupt\<close> is the only one that is
  not a subclass of \<open>Exception\<close>.\<close>

datatype exn =
    SocketTimeout
  | GaiError
  | StructError
  | ZeroDivisionError
  | ValueError
  | OtherError string
  | KeyboardInterrupt

text \<open>A float literal denotes the binary64 number nearest to its decimal value.\<close>

definition float_literal :: "real \<Rightarrow> pyfloat" where
  "float_literal x = fl x"

definition float_of_int :: "int \<Rightarrow> pyfloat" where
  "float_of_int n = fl (of_int n)"

definition float_add :: "pyfloat \<Rightarrow> pyfloat \<Rightarrow> pyfloat" where
  "float_add x y = fl (x + y)"

definition float_sub :: "pyfloat \<Rightarrow> pyfloat \<Rightarrow> pyfloat" where
  "float_sub x y = fl (x - y)"

definition float_truediv :: "pyfloat \<Rightarrow> pyfloat \<Rightarrow> exn + pyfloat" where
  "float_truediv x y = (if y = 0 then Inl ZeroDivisionError else Inr (fl (x / y)))"

text \<open>\<open>int / int\<close> is the correctly rounded quotient of the two integers.\<close>

definition int_truediv :: "int \<Rightarrow> int \<Rightarrow> exn + pyfloat" where
  "int_truediv a b =
     (if b = 0 then Inl ZeroDivisionError else Inr (fl (of_int a / of_int b)))"

text \<open>\<open>math.sqrt\<close> is correctly rounded and raises \<open>ValueError\<close> on a negative argument.\<close>

definition math_sqrt :: "pyfloat \<Rightarrow> exn + pyfloat" where
  "math_sqrt x = (if x < 0 then Inl ValueError else Inr (fl (sqrt x)))"

text \<open>
  Two library routines round in a way that depends on the interpreter and on the C
  library: the builtin \<open>sum\<close> (plain left-to-right accumulation up to CPython 3.11,
  compensated summation from 3.12) and \<open>x ** 2\<close> (the C library's \<open>pow\<close>, which need not
  be correctly rounded).  The summary takes them as a parameter.
\<close>

record runtime =
  rt_sum :: "pyfloat list \<Rightarrow> pyfloat"
  rt_square :: "pyfloat \<Rightarrow> pyfloat"

text \<open>\<open>sum\<close> as CPython up to 3.11 computes it: it starts from the integer \<open>0\<close> and adds
  the items from left to right.\<close>

definition sum_left_to_right :: "pyfloat list \<Rightarrow> pyfloat" where
  "sum_left_to_right xs = foldl float_add (float_of_int 0) xs"

text \<open>\<open>sum\<close> as CPython from 3.12 computes it (Neumaier's compensated summation): the first
  item is added to the integer \<open>0\<close>, the others are accumulated together with a running
  compensation, which is added at the end when it is not zero.\<close>

fun neumaier :: "pyfloat \<Rightarrow> pyfloat \<Rightarrow> pyfloat list \<Rightarrow> pyfloat" where
  "neumaier f c [] = (if c \<noteq> 0 then float_add f c else f)"
| "neumaier f c (x # xs) =
     (let t = float_add f x;
          c' = (if \<bar>x\<bar> \<le> \<bar>f\<bar> then float_add c (float_add (float_sub f t) x)
                else float_add c (float_add (float_sub x t) f))
      in neumaier t c' xs)"

definition sum_compensated :: "pyfloat list \<Rightarrow> pyfloat" where
  "sum_compensated xs =
     (case xs of [] \<Rightarrow> float_of_int 0
      | x # ys \<Rightarrow> neumaier (float_add (float_of_int 0) x) (float_literal 0) ys)"

text \<open>Two runtimes to evaluate the summary with: they differ in the sum, and both square
  with correct rounding, as the product \<open>x * x\<close> does.\<close>

definition runtime_311 :: runtime where
  "runtime_311 = \<lparr>rt_sum = sum_left_to_right, rt_square = (\<lambda>x. fl (x * x))\<rparr>"

definition runtime_312 :: runtime where
  "runtime_312 = \<lparr>rt_sum = sum_compensated, rt_square = (\<lambda>x. fl (x * x))\<rparr>"

text \<open>What the summary needs of the two routines to reach \<open>math.sqrt\<close> with a
  non-negative variance.\<close>

definition rt_ok :: "runtime \<Rightarrow> bool" where
  "rt_ok rt \<longleftrightarrow>
     (\<forall>x. 0 \<le> rt_square rt x) \<and> (\<forall>xs. list_all (\<lambda>x. 0 \<le> x) xs \<longrightarrow> 0 \<le> rt_sum rt xs)"

section \<open>Timestamp codec\<close>

type_synonym byte = "8 word"

definition NTP_DELTA :: int where
  "NTP_DELTA = 2208988800"

definition PORT :: int where
  "PORT = 123"

definition BUF_SIZE :: nat where
  "BUF_SIZE = 1024"

text \<open>A big-endian unsigned integer, most significant byte first.\<close>

definition be_uint :: "byte list \<Rightarrow> int" where
  "be_uint bs = foldl (\<lambda>acc b. acc * 256 + uint b) 0 bs"

text \<open>\<open>struct.unpack("!II", b)\<close>: two big-endian unsigned 32-bit integers from exactly 8
  bytes; any other length raises \<open>struct.error\<close>.\<close>

definition unpack_II :: "byte list \<Rightarrow> exn + (int \<times> int)" where
  "unpack_II bs =
     (if length bs \<noteq> 8 then Inl StructError
      else Inr (be_uint (take 4 bs), be_uint (drop 4 bs)))"

definition get_ntp_time :: "byte list \<Rightarrow> exn + pyfloat" where
  "get_ntp_time timestamp_bytes =
     (case unpack_II timestamp_bytes of
        Inl e \<Rightarrow> Inl e
      | Inr (seconds, fraction) \<Rightarrow>
          (case int_truediv fraction (2 ^ 32) of
             Inl e \<Rightarrow> Inl e
           | Inr q \<Rightarrow> Inr (float_add (float_of_int (seconds - NTP_DELTA)) q)))"

text \<open>Modelled from the spec: the encoder of the codec round-trip property (section 8),
  which the repository does not contain: a value as four big-endian bytes, and a pair of
  seconds and fraction as eight.\<close>

definition be32 :: "int \<Rightarrow> byte list" where
  "be32 n = [word_of_int (n div 2 ^ 24), word_of_int (n div 2 ^ 16),
             word_of_int (n div 2 ^ 8), word_of_int n]"

definition pack_II :: "int \<Rightarrow> int \<Rightarrow> byte list" where
  "pack_II s f = be32 s @ be32 f"

section \<open>One exchange and the poll loop\<close>

record sample =
  offset :: pyfloat
  delay :: pyfloat

datatype verdict = ACCURATE | DRIFTING

text \<open>The lines the program prints, with the values they render.\<close>

datatype line =
    Header string pyfloat
  | Progress int pyfloat pyfloat pyfloat
  | TimeoutNotice int
  | ResolveNotice int string
  | ErrorNotice int exn
  | SummaryBanner
  | TargetLine string
  | CountLine nat
  | AverageOffsetLine pyfloat
  | MaxOffsetLine pyfloat
  | MinOffsetLine pyfloat
  | StdDeviationLine pyfloat
  | AverageDelayLine pyfloat
  | Separator
  | ResultLine verdict
  | NoDataLine
  | ClosingRule

text \<open>The state of \<open>main\<close>: the sequence counter, the recorded samples, what has been
  printed, and the calls of \<open>time.sleep\<close> so far.\<close>

record session =
  sequence :: int
  results :: "sample list"
  console :: "line list"
  sleeps :: "pyfloat list"

text \<open>What the outside world does during one iteration: the two readings of
  \<open>time.time()\<close>, whether \<open>sendto\<close> and \<open>recvfrom\<close> deliver a datagram or raise, and
  what the steps after \<open>results.append\<close> raise, if they do (lines 73 to 76: the local time
  of day, the formatting and the \<open>print\<close> of the progress line; \<open>KeyboardInterrupt\<close> can
  arrive there as well).\<close>

datatype net_result = Received "byte list" | Raised exn

record tick =
  t1_clock :: pyfloat
  net :: net_result
  t4_clock :: pyfloat
  progress_raises :: "exn option"

text \<open>\<open>data[i:j]\<close> for constant indices \<open>0 \<le> i \<le> j\<close>: the slice is cut at the end of the
  data and never raises.\<close>

definition py_slice :: "nat \<Rightarrow> nat \<Rightarrow> 'a list \<Rightarrow> 'a list" where
  "py_slice i j xs = take (j - i) (drop i xs)"

text \<open>\<open>recvfrom(BUF_SIZE)\<close> returns at most \<open>BUF_SIZE\<close> bytes of the datagram.\<close>

definition recvfrom :: "nat \<Rightarrow> byte list \<Rightarrow> byte list" where
  "recvfrom bufsize datagram = take bufsize datagram"

text \<open>Printing appends a line to the console.  The progress line has its raising step in
  the body of the \<open>try\<close>; the notices of the handlers and the lines of the summary are
  taken not to raise.\<close>

definition print_line :: "line \<Rightarrow> session \<Rightarrow> session" where
  "print_line l s = s\<lparr>console := console s @ [l]\<rparr>"

definition time_sleep :: "pyfloat \<Rightarrow> session \<Rightarrow> session" where
  "time_sleep d s = s\<lparr>sleeps := sleeps s @ [d]\<rparr>"

text \<open>The offset and delay of lines 68 and 69; the divisor is the integer \<open>2\<close>.\<close>

definition calc_delay :: "pyfloat \<Rightarrow> pyfloat \<Rightarrow> pyfloat \<Rightarrow> pyfloat \<Rightarrow> pyfloat" where
  "calc_delay t1 t2 t3 t4 = float_sub (float_sub t4 t1) (float_sub t3 t2)"

definition calc_offset :: "pyfloat \<Rightarrow> pyfloat \<Rightarrow> pyfloat \<Rightarrow> pyfloat \<Rightarrow> exn + pyfloat" where
  "calc_offset t1 t2 t3 t4 =
     float_truediv (float_add (float_sub t2 t1) (float_sub t3 t4)) (float_of_int 2)"

text \<open>The body of the inner \<open>try\<close> (lines 56 to 76).  It returns the exception that left
  it, if any, together with the state at that moment.  The sample is appended (line 71)
  before the progress line is formatted and printed: an exception of those last steps
  leaves the body with the sample recorded and the line not printed.\<close>

definition try_body :: "tick \<Rightarrow> session \<Rightarrow> exn option \<times> session" where
  "try_body tk s =
     (case net tk of
        Raised e \<Rightarrow> (Some e, s)
      | Received datagram \<Rightarrow>
          (let data = recvfrom BUF_SIZE datagram; t1 = t1_clock tk; t4 = t4_clock tk
           in if data \<noteq> [] then
                (case get_ntp_time (py_slice 32 40 data) of
                   Inl e \<Rightarrow> (Some e, s)
                 | Inr t2 \<Rightarrow>
                     (case get_ntp_time (py_slice 40 48 data) of
                        Inl e \<Rightarrow> (Some e, s)
                      | Inr t3 \<Rightarrow>
                          (let d = calc_delay t1 t2 t3 t4
                           in case calc_offset t1 t2 t3 t4 of
                                Inl e \<Rightarrow> (Some e, s)
                              | Inr off \<Rightarrow>
                                  (let s1 = s\<lparr>results := results s
                                              @ [\<lparr>offset = off, delay = d\<rparr>]\<rparr>
                                   in case progress_raises tk of
                                        Some e \<Rightarrow> (Some e, s1)
                                      | None \<Rightarrow>
                                          (None, print_line
                                             (Progress (sequence s1) t4 off d) s1)))))
              else (None, s)))"

text \<open>The three \<open>except\<close> clauses of the inner \<open>try\<close>, in the order of the source.
  \<open>KeyboardInterrupt\<close> is not an \<open>Exception\<close> and passes through all of them.\<close>

definition handle_exn :: "string \<Rightarrow> exn \<Rightarrow> session \<Rightarrow> session" where
  "handle_exn target_server e s =
     (case e of
        SocketTimeout \<Rightarrow> print_line (TimeoutNotice (sequence s)) s
      | GaiError \<Rightarrow>
          time_sleep (float_of_int 1) (print_line (ResolveNotice (sequence s) target_server) s)
      | _ \<Rightarrow> print_line (ErrorNotice (sequence s) e) s)"

text \<open>One pass through the \<open>while\<close> loop.  The flag says that \<open>KeyboardInterrupt\<close> left
  the loop.\<close>

definition poll_iteration :: "string \<Rightarrow> pyfloat \<Rightarrow> tick \<Rightarrow> session \<Rightarrow> bool \<times> session" where
  "poll_iteration target_server interval tk s =
     (let s0 = s\<lparr>sequence := sequence s + 1\<rparr>
      in case try_body tk s0 of
           (None, s1) \<Rightarrow> (False, time_sleep interval s1)
         | (Some e, s1) \<Rightarrow>
             if e = KeyboardInterrupt then (True, s1)
             else (False, time_sleep interval (handle_exn target_server e s1)))"

text \<open>The loop runs over the iterations that the outside world lets happen; after the
  last of them \<open>KeyboardInterrupt\<close> arrives, at the latest during the sleep.\<close>

fun poll_loop :: "string \<Rightarrow> pyfloat \<Rightarrow> tick list \<Rightarrow> session \<Rightarrow> session" where
  "poll_loop target_server interval [] s = s"
| "poll_loop target_server interval (tk # tks) s =
     (case poll_iteration target_server interval tk s of
        (True, s') \<Rightarrow> s'
      | (False, s') \<Rightarrow> poll_loop target_server interval tks s')"

section \<open>Summary\<close>

record stats =
  count :: nat
  avg_offset :: pyfloat
  max_offset :: pyfloat
  min_offset :: pyfloat
  std_dev :: pyfloat
  avg_delay :: pyfloat
  classification :: verdict

datatype report = NoData | Stats stats

text \<open>The builtins \<open>max\<close> and \<open>min\<close> keep the first item and replace it by a later one
  that is strictly greater (smaller); on an empty list they raise \<open>ValueError\<close>.\<close>

definition py_max :: "pyfloat list \<Rightarrow> exn + pyfloat" where
  "py_max xs = (case xs of [] \<Rightarrow> Inl ValueError
                | x # ys \<Rightarrow> Inr (foldl (\<lambda>m y. if m < y then y else m) x ys))"

definition py_min :: "pyfloat list \<Rightarrow> exn + pyfloat" where
  "py_min xs = (case xs of [] \<Rightarrow> Inl ValueError
                | x # ys \<Rightarrow> Inr (foldl (\<lambda>m y. if y < m then y else m) x ys))"

text \<open>Lines 114 to 117.\<close>

definition classify :: "pyfloat \<Rightarrow> verdict" where
  "classify avg = (if \<bar>avg\<bar> \<le> float_literal (1 / 2) then ACCURATE else DRIFTING)"

text \<open>Sequencing of computations that may raise.\<close>

definition bind_exn :: "exn + 'a \<Rightarrow> ('a \<Rightarrow> exn + 'b) \<Rightarrow> exn + 'b" where
  "bind_exn m f = (case m of Inl e \<Rightarrow> Inl e | Inr x \<Rightarrow> f x)"

text \<open>Lines 92 to 119 without the printing: the numbers of the summary.\<close>

definition summary :: "runtime \<Rightarrow> sample list \<Rightarrow> exn + report" where
  "summary rt rs =
     (if rs \<noteq> [] then
        (let offsets = map offset rs; delays = map delay rs; n = length offsets
         in bind_exn (float_truediv (rt_sum rt offsets) (float_of_int (int n))) (\<lambda>avg.
            bind_exn (py_max offsets) (\<lambda>mx.
            bind_exn (py_min offsets) (\<lambda>mn.
            bind_exn (float_truediv (rt_sum rt delays) (float_of_int (int n))) (\<lambda>avgd.
            bind_exn (float_truediv
                        (rt_sum rt (map (\<lambda>x. rt_square rt (float_sub x avg)) offsets))
                        (float_of_int (int n))) (\<lambda>variance.
            bind_exn (math_sqrt variance) (\<lambda>sd.
              Inr (Stats \<lparr>count = n, avg_offset = avg, max_offset = mx, min_offset = mn,
                          std_dev = sd, avg_delay = avgd,
                          classification = classify avg\<rparr>))))))))
      else Inr NoData)"

definition report_lines :: "string \<Rightarrow> report \<Rightarrow> line list" where
  "report_lines target_server r =
     (case r of
        Stats st \<Rightarrow>
          [TargetLine target_server, CountLine (count st), AverageOffsetLine (avg_offset st),
           MaxOffsetLine (max_offset st), MinOffsetLine (min_offset st),
           StdDeviationLine (std_dev st), AverageDelayLine (avg_delay st), Separator,
           ResultLine (classification st)]
      | NoData \<Rightarrow> [NoDataLine])"

text \<open>The handler of \<open>KeyboardInterrupt\<close> (lines 88 to 122).  An exception raised in it
  is not caught: the lines after the banner are then not printed.\<close>

definition show_summary :: "runtime \<Rightarrow> string \<Rightarrow> session \<Rightarrow> exn + session" where
  "show_summary rt target_server s =
     (let s1 = print_line SummaryBanner s
      in case summary rt (results s1) of
           Inl e \<Rightarrow> Inl e
         | Inr r \<Rightarrow>
             Inr (print_line ClosingRule
                    (s1\<lparr>console := console s1 @ report_lines target_server r\<rparr>)))"

definition initial_session :: "string \<Rightarrow> pyfloat \<Rightarrow> session" where
  "initial_session target_server interval =
     \<lparr>sequence = 0, results = [], console = [Header target_server interval], sleeps = []\<rparr>"

definition main :: "runtime \<Rightarrow> string \<Rightarrow> pyfloat \<Rightarrow> tick list \<Rightarrow> exn + session" where
  "main rt target_server interval tks =
     show_summary rt target_server
       (poll_loop target_server interval tks (initial_session target_server interval))"

section \<open>Properties of the float model\<close>

lemma pow2_pos: "0 < pow2 k"
  by (simp add: pow2_def)

lemma pow2_powr: "pow2 k = 2 powr real_of_int k"
proof (cases "0 \<le> k")
  case True
  then have "2 powr real_of_int k = 2 powr real (nat k)" by simp
  also have "\<dots> = 2 ^ nat k" by (simp add: powr_realpow)
  finally show ?thesis using True by (simp add: pow2_def)
next
  case False
  then have "2 powr real_of_int k = 2 powr (- real (nat (- k)))" by simp
  also have "\<dots> = 1 / 2 ^ nat (- k)" by (simp add: powr_minus_divide powr_realpow)
  finally show ?thesis using False by (simp add: pow2_def)
qed

lemma pow2_add: "pow2 (a + b) = pow2 a * pow2 b"
  by (simp add: pow2_powr powr_add)

lemma pow2_diff: "pow2 (a - b) = pow2 a / pow2 b"
  by (simp add: pow2_powr powr_diff)

lemma pow2_mono: "a \<le> b \<Longrightarrow> pow2 a \<le> pow2 b"
  by (simp add: pow2_powr)

lemma pow2_less_iff: "pow2 a < pow2 b \<longleftrightarrow> a < b"
  by (simp add: pow2_powr)

lemma pow2_nat: "0 \<le> k \<Longrightarrow> pow2 k = 2 ^ nat k"
  by (simp add: pow2_def)

lemma round_half_even_error: "\<bar>of_int (round_half_even y) - y\<bar> \<le> 1 / 2"
proof -
  have "of_int \<lfloor>y\<rfloor> \<le> y" and "y < of_int \<lfloor>y\<rfloor> + 1" by linarith+
  then show ?thesis
    by (auto simp: round_half_even_def Let_def)
qed

lemma round_half_even_of_int: "round_half_even (of_int i) = i"
  by (simp add: round_half_even_def)

lemma round_half_even_ge_floor: "\<lfloor>y\<rfloor> \<le> round_half_even y"
  by (simp add: round_half_even_def Let_def)

lemma expo_bounds:
  assumes "x \<noteq> 0"
  shows "pow2 (expo x) \<le> \<bar>x\<bar>" and "\<bar>x\<bar> < pow2 (expo x + 1)"
proof -
  have "pow2 (expo x) \<le> \<bar>x\<bar> \<and> \<bar>x\<bar> < pow2 (expo x + 1)"
  proof (cases "1 \<le> \<bar>x\<bar>")
    case True
    define m where "m = \<lfloor>\<bar>x\<bar>\<rfloor>"
    have m1: "1 \<le> m" using True by (simp add: m_def le_floor_iff)
    have b: "2 ^ nat (bitlen m - 1) \<le> m" "m < 2 ^ nat (bitlen m)"
      using bitlen_bounds [of m] m1 by auto
    have b1: "1 \<le> bitlen m" using m1 bitlen_eq_zero_iff [of m] bitlen_nonneg [of m] by linarith
    have e: "expo x = bitlen m - 1" using True by (simp add: expo_def m_def)
    have "real_of_int m \<le> \<bar>x\<bar>" by (simp add: m_def)
    moreover have "(2::real) ^ nat (bitlen m - 1) \<le> real_of_int m"
      using of_int_le_iff [of "2 ^ nat (bitlen m - 1)" m, where ?'a = real] b(1) by simp
    ultimately have "(2::real) ^ nat (bitlen m - 1) \<le> \<bar>x\<bar>" by linarith
    then have lo: "pow2 (expo x) \<le> \<bar>x\<bar>"
      using b1 by (simp add: e pow2_def)
    have "\<bar>x\<bar> < real_of_int m + 1" by (simp add: m_def)
    moreover have "m + 1 \<le> 2 ^ nat (bitlen m)" using b(2) by simp
    then have "real_of_int m + 1 \<le> (2::real) ^ nat (bitlen m)"
      using of_int_le_iff [of "m + 1" "2 ^ nat (bitlen m)", where ?'a = real] by simp
    ultimately have "\<bar>x\<bar> < (2::real) ^ nat (bitlen m)" by linarith
    then have hi: "\<bar>x\<bar> < pow2 (expo x + 1)"
      using b1 by (simp add: e pow2_def)
    from lo hi show ?thesis ..
  next
    case False
    define y where "y = 1 / \<bar>x\<bar>"
    define n where "n = \<lceil>y\<rceil> - 1"
    have x0: "0 < \<bar>x\<bar>" using assms by simp
    have y1: "1 < y" using False x0 by (simp add: y_def)
    have ny: "real_of_int n < y" "y \<le> real_of_int n + 1"
      unfolding n_def by linarith+
    have n1: "1 \<le> n" using y1 unfolding n_def by linarith
    have b: "2 ^ nat (bitlen n - 1) \<le> n" "n < 2 ^ nat (bitlen n)"
      using bitlen_bounds [of n] n1 by auto
    have b1: "1 \<le> bitlen n" using n1 bitlen_eq_zero_iff [of n] bitlen_nonneg [of n] by linarith
    have e: "expo x = - bitlen n" using False by (simp add: expo_def n_def y_def)
    have xy: "\<bar>x\<bar> = 1 / y" using x0 by (simp add: y_def)
    have "n + 1 \<le> 2 ^ nat (bitlen n)" using b(2) by simp
    then have "real_of_int n + 1 \<le> (2::real) ^ nat (bitlen n)"
      using of_int_le_iff [of "n + 1" "2 ^ nat (bitlen n)", where ?'a = real] by simp
    then have "y \<le> 2 ^ nat (bitlen n)" using ny(2) by linarith
    then have "1 / 2 ^ nat (bitlen n) \<le> 1 / y" using y1 by (simp add: frac_le)
    then have lo: "pow2 (expo x) \<le> \<bar>x\<bar>"
      using b1 by (simp add: e pow2_def xy)
    have "(2::real) ^ nat (bitlen n - 1) \<le> real_of_int n"
      using of_int_le_iff [of "2 ^ nat (bitlen n - 1)" n, where ?'a = real] b(1) by simp
    then have "2 ^ nat (bitlen n - 1) < y" using ny(1) by linarith
    then have "1 / y < 1 / 2 ^ nat (bitlen n - 1)" by (simp add: frac_less2)
    moreover have "pow2 (1 - bitlen n) = 1 / 2 ^ nat (bitlen n - 1)"
      using b1 by (cases "bitlen n = 1") (simp_all add: pow2_def)
    ultimately have hi: "\<bar>x\<bar> < pow2 (expo x + 1)"
      by (simp add: e xy)
    from lo hi show ?thesis ..
  qed
  then show "pow2 (expo x) \<le> \<bar>x\<bar>" and "\<bar>x\<bar> < pow2 (expo x + 1)" by simp_all
qed


lemma pow2_half: "pow2 (k - 1) = pow2 k / 2"
  using pow2_diff [of k 1] by (simp add: pow2_def)

lemma fl_error: "\<bar>fl x - x\<bar> \<le> pow2 (max (expo x) (- 1022) - 53)"
proof (cases "x = 0")
  case True
  then show ?thesis using pow2_pos [of "max (expo x) (- 1022) - 53"] by (simp add: fl_def)
next
  case False
  define q where "q = pow2 (max (expo x) (- 1022) - 52)"
  have q0: "0 < q" by (simp add: q_def pow2_pos)
  have "fl x - x = (of_int (round_half_even (x / q)) - x / q) * q"
    using False q0 by (simp add: fl_def q_def Let_def algebra_simps)
  then have "\<bar>fl x - x\<bar> = \<bar>of_int (round_half_even (x / q)) - x / q\<bar> * q"
    using q0 by (simp add: abs_mult)
  also have "\<dots> \<le> (1 / 2) * q"
    using round_half_even_error [of "x / q"] q0 by (intro mult_right_mono) simp_all
  also have "\<dots> = pow2 (max (expo x) (- 1022) - 53)"
    using pow2_half [of "max (expo x) (- 1022) - 52"] by (simp add: q_def)
  finally show ?thesis .
qed

lemma expo_less: "x \<noteq> 0 \<Longrightarrow> \<bar>x\<bar> < pow2 k \<Longrightarrow> expo x < k"
  using expo_bounds(1) [of x] pow2_less_iff [of "expo x" k] by linarith

lemma expo_ge: "pow2 k \<le> \<bar>x\<bar> \<Longrightarrow> k \<le> expo x"
proof -
  assume a: "pow2 k \<le> \<bar>x\<bar>"
  then have "x \<noteq> 0" using pow2_pos [of k] by auto
  then have "pow2 k < pow2 (expo x + 1)" using expo_bounds(2) [of x] a by linarith
  then show ?thesis by (simp add: pow2_less_iff)
qed

lemma fl_representable:
  assumes m: "\<bar>m\<bar> < 2 ^ 53" and k: "- 1074 \<le> k"
  shows "fl (of_int m * pow2 k) = of_int m * pow2 k"
proof (cases "m = 0")
  case True
  then show ?thesis by (simp add: fl_def)
next
  case False
  define x where "x = real_of_int m * pow2 k"
  define E where "E = max (expo x) (- 1022) - 52"
  have x0: "x \<noteq> 0" using False pow2_pos [of k] by (simp add: x_def)
  have "real_of_int \<bar>m\<bar> < real_of_int (2 ^ 53)" using m of_int_less_iff by blast
  then have "\<bar>real_of_int m\<bar> < pow2 53" by (simp add: pow2_def)
  then have "\<bar>x\<bar> < pow2 53 * pow2 k"
    using pow2_pos [of k] by (simp add: x_def abs_mult)
  then have "\<bar>x\<bar> < pow2 (53 + k)" by (simp add: pow2_add)
  then have "expo x < 53 + k" using x0 by (rule expo_less [rotated])
  then have Ek: "E \<le> k" using k by (simp add: E_def)
  have "pow2 k = pow2 (k - E) * pow2 E" using pow2_add [of "k - E" E] by simp
  then have "x / pow2 E = real_of_int m * pow2 (k - E)"
    using pow2_pos [of E] by (simp add: x_def)
  also have "\<dots> = real_of_int (m * 2 ^ nat (k - E))"
    using Ek by (simp add: pow2_def)
  finally have "round_half_even (x / pow2 E) = m * 2 ^ nat (k - E)"
    by (simp only: round_half_even_of_int)
  then have "fl x = real_of_int (m * 2 ^ nat (k - E)) * pow2 E"
    using x0 by (simp add: fl_def E_def Let_def)
  also have "\<dots> = real_of_int m * (pow2 (k - E) * pow2 E)"
    using Ek by (simp add: pow2_def)
  also have "\<dots> = x" using pow2_add [of "k - E" E] by (simp add: x_def)
  finally show ?thesis by (simp add: x_def)
qed

lemma fl_of_int_exact: "\<bar>n\<bar> < 2 ^ 53 \<Longrightarrow> fl (of_int n) = of_int n"
  using fl_representable [of n 0] by (simp add: pow2_def)

lemma fl_nonneg: "0 \<le> x \<Longrightarrow> 0 \<le> fl x"
proof -
  assume x: "0 \<le> x"
  define q where "q = pow2 (max (expo x) (- 1022) - 52)"
  have q0: "0 < q" by (simp add: q_def pow2_pos)
  have "0 \<le> x / q" using x q0 by simp
  then have "0 \<le> \<lfloor>x / q\<rfloor>" by simp
  then have "0 \<le> round_half_even (x / q)"
    using round_half_even_ge_floor [of "x / q"] by linarith
  then have "0 \<le> real_of_int (round_half_even (x / q)) * q" using q0 by simp
  then show ?thesis by (simp add: fl_def q_def Let_def)
qed

lemma fl_ge_one: "1 \<le> x \<Longrightarrow> 1 \<le> fl x"
proof -
  assume x: "1 \<le> x"
  then have x0: "x \<noteq> 0" by simp
  have "pow2 0 \<le> \<bar>x\<bar>" using x by (simp add: pow2_def)
  then have e0: "0 \<le> expo x" by (rule expo_ge)
  define q where "q = pow2 (expo x - 52)"
  have q0: "0 < q" by (simp add: q_def pow2_pos)
  have pq: "pow2 (expo x) = 2 ^ 52 * q"
    using pow2_add [of 52 "expo x - 52"] by (simp add: q_def pow2_def)
  have "2 ^ 52 * q \<le> x" using expo_bounds(1) [OF x0] x pq by simp
  then have "real_of_int (2 ^ 52) \<le> x / q" using q0 by (simp add: pos_le_divide_eq)
  then have "2 ^ 52 \<le> \<lfloor>x / q\<rfloor>" by (simp only: le_floor_iff)
  then have "2 ^ 52 \<le> round_half_even (x / q)"
    using round_half_even_ge_floor [of "x / q"] by linarith
  then have "real_of_int (2 ^ 52) \<le> real_of_int (round_half_even (x / q))"
    using of_int_le_iff by blast
  then have "2 ^ 52 * q \<le> real_of_int (round_half_even (x / q)) * q"
    using q0 by simp
  moreover have "fl x = real_of_int (round_half_even (x / q)) * q"
    using x0 e0 by (simp add: fl_def q_def Let_def max_def)
  moreover have "1 \<le> pow2 (expo x)" using pow2_mono [OF e0] by (simp add: pow2_def)
  ultimately show ?thesis using pq by linarith
qed

section \<open>Properties of the codec\<close>

lemma length4: "length bs = 4 \<Longrightarrow> \<exists>a b c d. bs = [a, b, c, d]"
  by (auto simp: length_Suc_conv numeral_eq_Suc)

lemma uint_byte: "0 \<le> uint (b :: byte)" "uint (b :: byte) < 256"
  using uint_bounded [of b] by simp_all

lemma be_uint_4:
  "be_uint [a, b, c, d] = uint a * 16777216 + uint b * 65536 + uint c * 256 + uint d"
  by (simp add: be_uint_def)

lemma be_uint_range:
  assumes "length bs = 4"
  shows "0 \<le> be_uint bs \<and> be_uint bs < 2 ^ 32"
proof -
  obtain a b c d where bs: "bs = [a, b, c, d]" using length4 [OF assms] by blast
  have "0 \<le> be_uint [a, b, c, d] \<and> be_uint [a, b, c, d] < 4294967296"
    unfolding be_uint_4
    using uint_byte [of a] uint_byte [of b] uint_byte [of c] uint_byte [of d]
    by (intro conjI) linarith+
  then show ?thesis by (simp add: bs)
qed

lemma be_uint_be32:
  assumes "0 \<le> n" "n < 2 ^ 32"
  shows "be_uint (be32 n) = n"
proof -
  define A where "A = n div 16777216"
  define B where "B = n div 65536"
  define C where "C = n div 256"
  define Am where "Am = A mod 256"
  define Bm where "Bm = B mod 256"
  define Cm where "Cm = C mod 256"
  define Nm where "Nm = n mod 256"
  have u: "uint (word_of_int k :: byte) = k mod 256" for k
    by (simp add: uint_word_of_int)
  have e: "be_uint (be32 n) = Am * 16777216 + Bm * 65536 + Cm * 256 + Nm"
    unfolding be32_def be_uint_4 u by (simp add: A_def B_def C_def Am_def Bm_def Cm_def Nm_def)
  have "0 \<le> A" "A < 256" using assms by (simp_all add: A_def)
  then have a: "Am = A" by (simp add: Am_def)
  have "B div 256 = A"
    unfolding A_def B_def using zdiv_zmult2_eq [of 256 n 65536] by simp
  then have b: "A * 256 + Bm = B"
    unfolding Bm_def using div_mult_mod_eq [of B 256] by simp
  have "C div 256 = B"
    unfolding B_def C_def using zdiv_zmult2_eq [of 256 n 256] by simp
  then have c: "B * 256 + Cm = C"
    unfolding Cm_def using div_mult_mod_eq [of C 256] by simp
  have d: "C * 256 + Nm = n"
    unfolding C_def Nm_def using div_mult_mod_eq [of n 256] by simp
  show ?thesis
    using a b c d e by linarith
qed

lemma unpack_II_8:
  "length bs = 8 \<Longrightarrow> unpack_II bs = Inr (be_uint (take 4 bs), be_uint (drop 4 bs))"
  by (simp add: unpack_II_def)

lemma codec_value:
  assumes s: "0 \<le> s" "s < 2 ^ 32" and f: "0 \<le> f" "f < 2 ^ 32"
  shows "float_add (float_of_int (s - NTP_DELTA)) (fl (of_int f / of_int (2 ^ 32)))
         = fl (of_int (s - 2208988800) + of_int f / 2 ^ 32)"
proof -
  have "\<bar>s - 2208988800\<bar> < 2 ^ 53" using s by simp
  then have a: "fl (of_int (s - 2208988800)) = of_int (s - 2208988800)"
    by (rule fl_of_int_exact)
  have "\<bar>f\<bar> < 2 ^ 53" using f by simp
  then have "fl (of_int f * pow2 (- 32)) = of_int f * pow2 (- 32)"
    by (rule fl_representable) simp
  then have b: "fl (real_of_int f / real_of_int (2 ^ 32)) = real_of_int f / 2 ^ 32"
    by (simp add: pow2_def)
  show ?thesis
    unfolding float_add_def float_of_int_def NTP_DELTA_def by (simp only: a b)
qed

lemma length_be32: "length (be32 n) = 4"
  by (simp add: be32_def)

lemma unpack_pack:
  assumes "0 \<le> s" "s < 2 ^ 32" "0 \<le> f" "f < 2 ^ 32"
  shows "unpack_II (pack_II s f) = Inr (s, f)"
  using assms by (simp add: unpack_II_def pack_II_def length_be32 be_uint_be32)

lemma fl_error_small:
  assumes "\<bar>x\<bar> < 2 ^ 32"
  shows "\<bar>fl x - x\<bar> \<le> 1 / 2 ^ 22"
proof (cases "x = 0")
  case True
  then show ?thesis by (simp add: fl_def)
next
  case False
  have "\<bar>x\<bar> < pow2 32" using assms by (simp add: pow2_def)
  then have "expo x < 32" using False by (rule expo_less [rotated])
  then have "max (expo x) (- 1022) - 53 \<le> - 22" by simp
  then have "pow2 (max (expo x) (- 1022) - 53) \<le> pow2 (- 22)" by (rule pow2_mono)
  then show ?thesis using fl_error [of x] by (simp add: pow2_def)
qed

lemma get_ntp_time_wrong_length:
  "length bs \<noteq> 8 \<Longrightarrow> get_ntp_time bs = Inl StructError"
  by (simp add: get_ntp_time_def unpack_II_def)

lemma get_ntp_time_8: "length bs = 8 \<Longrightarrow> \<exists>t. get_ntp_time bs = Inr t"
  by (simp add: get_ntp_time_def unpack_II_def int_truediv_def)

lemma length_py_slice: "length (py_slice i j xs) = min (j - i) (length xs - i)"
  by (simp add: py_slice_def)





text \<open>A reply of at least 48 bytes is decoded, and its sample is recorded and, when the
  last steps do not raise, printed.\<close>

lemma successful_exchange_records_sample:
  assumes "net tk = Received datagram" and "48 \<le> length datagram"
    and "progress_raises tk = None"
  shows "\<exists>t2 t3 off.
           get_ntp_time (py_slice 32 40 (recvfrom BUF_SIZE datagram)) = Inr t2
         \<and> get_ntp_time (py_slice 40 48 (recvfrom BUF_SIZE datagram)) = Inr t3
         \<and> calc_offset (t1_clock tk) t2 t3 (t4_clock tk) = Inr off
         \<and> try_body tk s
             = (None, s\<lparr>results := results s
                           @ [\<lparr>offset = off,
                               delay = calc_delay (t1_clock tk) t2 t3 (t4_clock tk)\<rparr>],
                         console := console s
                           @ [Progress (sequence s) (t4_clock tk) off
                                (calc_delay (t1_clock tk) t2 t3 (t4_clock tk))]\<rparr>)"
proof -
  define data where "data = recvfrom BUF_SIZE datagram"
  have len: "48 \<le> length data"
    using assms(2) by (simp add: data_def recvfrom_def BUF_SIZE_def)
  then have ne: "data \<noteq> []" by auto
  obtain t2 where t2: "get_ntp_time (py_slice 32 40 data) = Inr t2"
    using get_ntp_time_8 [of "py_slice 32 40 data"] len by (auto simp: length_py_slice)
  obtain t3 where t3: "get_ntp_time (py_slice 40 48 data) = Inr t3"
    using get_ntp_time_8 [of "py_slice 40 48 data"] len by (auto simp: length_py_slice)
  have "float_of_int 2 \<noteq> 0" using fl_ge_one [of 2] by (simp add: float_of_int_def)
  then obtain off where off: "calc_offset (t1_clock tk) t2 t3 (t4_clock tk) = Inr off"
    by (simp add: calc_offset_def float_truediv_def)
  have "try_body tk s
          = (None, s\<lparr>results := results s
                        @ [\<lparr>offset = off,
                            delay = calc_delay (t1_clock tk) t2 t3 (t4_clock tk)\<rparr>],
                      console := console s
                        @ [Progress (sequence s) (t4_clock tk) off
                             (calc_delay (t1_clock tk) t2 t3 (t4_clock tk))]\<rparr>)"
    using ne t2 t3 off
    by (simp add: try_body_def assms(1,3) data_def [symmetric] Let_def print_line_def)
  then show ?thesis using t2 t3 off unfolding data_def by blast
qed

section \<open>Properties of the calculator and of the summary\<close>

lemma float_of_int_exact: "\<bar>n\<bar> < 2 ^ 53 \<Longrightarrow> float_of_int n = of_int n"
  by (simp add: float_of_int_def fl_of_int_exact)

lemma float_of_int_ge_one: "1 \<le> n \<Longrightarrow> 1 \<le> float_of_int n"
  unfolding float_of_int_def by (rule fl_ge_one) simp

lemma foldl_max: "foldl (\<lambda>m y. if m < y then y else m) x ys = Max (set (x # ys))"
proof (induction ys arbitrary: x)
  case Nil
  then show ?case by simp
next
  case (Cons y ys)
  have "(if x < y then y else x) = max x y" by (auto simp: max_def)
  moreover have "Max (insert (max x y) (set ys)) = Max (insert x (insert y (set ys)))"
    by (cases "set ys = {}") (simp_all add: max.assoc)
  ultimately show ?case using Cons.IH [of "max x y"] by simp
qed

lemma foldl_min: "foldl (\<lambda>m y. if y < m then y else m) x ys = Min (set (x # ys))"
proof (induction ys arbitrary: x)
  case Nil
  then show ?case by simp
next
  case (Cons y ys)
  have "(if y < x then y else x) = min x y" by (auto simp: min_def)
  moreover have "Min (insert (min x y) (set ys)) = Min (insert x (insert y (set ys)))"
    by (cases "set ys = {}") (simp_all add: min.assoc)
  ultimately show ?case using Cons.IH [of "min x y"] by simp
qed

lemma py_max_nonempty: "xs \<noteq> [] \<Longrightarrow> py_max xs = Inr (Max (set xs))"
  by (cases xs) (simp_all add: py_max_def foldl_max del: foldl_Cons set_simps)

lemma py_min_nonempty: "xs \<noteq> [] \<Longrightarrow> py_min xs = Inr (Min (set xs))"
  by (cases xs) (simp_all add: py_min_def foldl_min del: foldl_Cons set_simps)

lemma foldl_float_add_nonneg:
  "0 \<le> a \<Longrightarrow> list_all (\<lambda>x. 0 \<le> x) xs \<Longrightarrow> 0 \<le> foldl float_add a xs"
proof (induction xs arbitrary: a)
  case Nil
  then show ?case by simp
next
  case (Cons x xs)
  then have "0 \<le> float_add a x" by (simp add: float_add_def fl_nonneg)
  then show ?case using Cons by simp
qed

lemma rt_ok_311: "rt_ok runtime_311"
  by (simp add: rt_ok_def runtime_311_def fl_nonneg sum_left_to_right_def
      foldl_float_add_nonneg float_of_int_def)

lemma summary_nonempty:
  assumes ok: "rt_ok rt" and ne: "rs \<noteq> []"
  defines "n \<equiv> float_of_int (int (length rs))"
  defines "avg \<equiv> fl (rt_sum rt (map offset rs) / n)"
  defines "var \<equiv> fl (rt_sum rt (map (\<lambda>x. rt_square rt (float_sub x avg)) (map offset rs)) / n)"
  shows "summary rt rs =
           Inr (Stats \<lparr>count = length rs, avg_offset = avg,
                       max_offset = Max (set (map offset rs)),
                       min_offset = Min (set (map offset rs)),
                       std_dev = fl (sqrt var),
                       avg_delay = fl (rt_sum rt (map delay rs) / n),
                       classification = classify avg\<rparr>)"
proof -
  have "1 \<le> int (length rs)" using ne by (cases rs) simp_all
  then have n1: "1 \<le> n" unfolding n_def by (rule float_of_int_ge_one)
  then have n0: "n \<noteq> 0" by simp
  have "list_all (\<lambda>x. 0 \<le> x) (map (\<lambda>x. rt_square rt (float_sub x avg)) (map offset rs))"
    using ok by (simp add: rt_ok_def list_all_iff)
  then have "0 \<le> rt_sum rt (map (\<lambda>x. rt_square rt (float_sub x avg)) (map offset rs))"
    using ok by (simp add: rt_ok_def)
  then have "0 \<le> rt_sum rt (map (\<lambda>x. rt_square rt (float_sub x avg)) (map offset rs)) / n"
    using n1 by simp
  then have v0: "\<not> var < 0" unfolding var_def using fl_nonneg by (simp add: not_less)
  have m: "map offset rs \<noteq> []" using ne by simp
  show ?thesis
    using n0 v0 ne
    by (simp add: summary_def Let_def bind_exn_def float_truediv_def math_sqrt_def
        py_max_nonempty [OF m] py_min_nonempty [OF m]
        n_def [symmetric] avg_def [symmetric] var_def [symmetric] del: map_map)
qed

lemma expo_unique: "pow2 e \<le> \<bar>x\<bar> \<Longrightarrow> \<bar>x\<bar> < pow2 (e + 1) \<Longrightarrow> expo x = e"
proof -
  assume lo: "pow2 e \<le> \<bar>x\<bar>" and hi: "\<bar>x\<bar> < pow2 (e + 1)"
  have "x \<noteq> 0" using lo pow2_pos [of e] by auto
  then have "expo x < e + 1" using hi by (rule expo_less)
  moreover have "e \<le> expo x" using lo by (rule expo_ge)
  ultimately show ?thesis by simp
qed

lemma round_half_even_bracket:
  assumes "of_int n - 1 / 2 < y" and "y < of_int n + 1 / 2"
  shows "round_half_even y = n"
proof -
  have "\<lfloor>y\<rfloor> = n \<or> \<lfloor>y\<rfloor> = n - 1"
    using assms by (simp add: floor_eq_iff) linarith
  then show ?thesis
  proof
    assume f: "\<lfloor>y\<rfloor> = n"
    then show ?thesis using assms by (simp add: round_half_even_def Let_def)
  next
    assume f: "\<lfloor>y\<rfloor> = n - 1"
    then show ?thesis using assms by (simp add: round_half_even_def Let_def)
  qed
qed

lemma fl_bracket:
  assumes lo: "pow2 e \<le> x" and hi: "x < pow2 (e + 1)" and e: "- 1022 \<le> e"
    and nlo: "(of_int n - 1 / 2) * pow2 (e - 52) < x"
    and nhi: "x < (of_int n + 1 / 2) * pow2 (e - 52)"
  shows "fl x = of_int n * pow2 (e - 52)"
proof -
  have x0: "0 < x" using lo pow2_pos [of e] by linarith
  then have "expo x = e" using lo hi by (intro expo_unique) simp_all
  then have q: "max (expo x) (- 1022) - 52 = e - 52" using e by simp
  have q0: "0 < pow2 (e - 52)" by (rule pow2_pos)
  have "of_int n - 1 / 2 < x / pow2 (e - 52)"
    using nlo q0 by (simp add: pos_less_divide_eq)
  moreover have "x / pow2 (e - 52) < of_int n + 1 / 2"
    using nhi q0 by (simp add: pos_divide_less_eq)
  ultimately have "round_half_even (x / pow2 (e - 52)) = n"
    by (rule round_half_even_bracket)
  then show ?thesis using x0 by (simp add: fl_def q Let_def)
qed

lemma std_dev_value:
  "fl (sqrt (7686143364045645 / 1152921504606846976)) = 5883477916184625 / 72057594037927936"
proof -
  define v :: real where "v = 7686143364045645 / 1152921504606846976"
  have a: "pow2 (- 4) \<le> sqrt v"
    by (rule real_le_rsqrt) (simp add: pow2_def v_def power2_eq_square)
  have b: "sqrt v < pow2 (- 4 + 1)"
    by (rule real_less_lsqrt) (simp_all add: pow2_def v_def power2_eq_square)
  have c: "(of_int 5883477916184625 - 1 / 2) * pow2 (- 4 - 52) < sqrt v"
    by (rule real_less_rsqrt) (simp add: pow2_def v_def power2_eq_square)
  have d: "sqrt v < (of_int 5883477916184625 + 1 / 2) * pow2 (- 4 - 52)"
    by (rule real_less_lsqrt) (simp_all add: pow2_def v_def power2_eq_square)
  have "fl (sqrt v) = of_int 5883477916184625 * pow2 (- 4 - 52)"
    using a b _ c d by (rule fl_bracket) simp
  then show ?thesis by (simp add: pow2_def v_def)
qed

lemma std_dev_close:
  "\<bar>5883477916184625 / 72057594037927936 - sqrt (1 / 150)\<bar> < 1 / 10 ^ 16"
proof -
  have "5883477916184625 / 72057594037927936 - 1 / 10 ^ 16 < sqrt (1 / 150)"
    by (rule real_less_rsqrt) (simp add: power2_eq_square)
  moreover have "sqrt (1 / 150) < 5883477916184625 / 72057594037927936 + 1 / 10 ^ 16"
    by (rule real_less_lsqrt) (simp_all add: power2_eq_square)
  ultimately show ?thesis by linarith
qed

lemma summary_value:
  assumes ok: "rt_ok rt" and ne: "rs \<noteq> []"
    and n: "n = float_of_int (int (length rs))"
    and avg: "avg = fl (rt_sum rt (map offset rs) / n)"
    and var: "var = fl (rt_sum rt (map (\<lambda>x. rt_square rt (float_sub x avg)) (map offset rs)) / n)"
  shows "summary rt rs =
           Inr (Stats \<lparr>count = length rs, avg_offset = avg,
                       max_offset = Max (set (map offset rs)),
                       min_offset = Min (set (map offset rs)),
                       std_dev = fl (sqrt var),
                       avg_delay = fl (rt_sum rt (map delay rs) / n),
                       classification = classify avg\<rparr>)"
  using summary_nonempty [OF ok ne] unfolding n avg var .

lemma float_literal_half: "float_literal (1 / 2) = 1 / 2"
  by code_simp

lemma classify_iff: "classify avg = ACCURATE \<longleftrightarrow> \<bar>avg\<bar> \<le> 1 / 2"
  by (simp add: classify_def float_literal_half)

lemma classify_iff_drifting: "classify avg = DRIFTING \<longleftrightarrow> 1 / 2 < \<bar>avg\<bar>"
  by (simp add: classify_def float_literal_half not_le)

lemma literal_values:
  "float_literal (1 / 10) = 3602879701896397 / 36028797018963968"
  "float_literal (2 / 10) = 3602879701896397 / 18014398509481984"
  "float_literal (3 / 10) = 5404319552844595 / 18014398509481984"
  by code_simp+

lemma scenario_avg:
  "7205759403792795 / 36028797018963968
   = fl (rt_sum runtime_311 [float_literal (1 / 10), float_literal (2 / 10), float_literal (3 / 10)]
         / 3)"
  by code_simp

lemma scenario_squares:
  "rt_square runtime_311 (float_sub (float_literal (1 / 10)) (7205759403792795 / 36028797018963968))
   = 5764607523034239 / 576460752303423488"
  "rt_square runtime_311 (float_sub (float_literal (2 / 10)) (7205759403792795 / 36028797018963968))
   = 1 / 1298074214633706907132624082305024"
  "rt_square runtime_311 (float_sub (float_literal (3 / 10)) (7205759403792795 / 36028797018963968))
   = 5764607523034229 / 576460752303423488"
  by code_simp+

lemma scenario_var:
  "7686143364045645 / 1152921504606846976
   = fl (rt_sum runtime_311
           (map (\<lambda>x. rt_square runtime_311 (float_sub x (7205759403792795 / 36028797018963968)))
              [float_literal (1 / 10), float_literal (2 / 10), float_literal (3 / 10)]) / 3)"
  unfolding list.map scenario_squares by code_simp

lemma scenario_avg_compensated:
  "fl (rt_sum runtime_312 [float_literal (1 / 10), float_literal (2 / 10), float_literal (3 / 10)]
         / 3) = 7205759403792793 / 36028797018963968"
  by code_simp

lemma scenario_summary:
  assumes o: "map offset rs = [float_literal (1 / 10), float_literal (2 / 10), float_literal (3 / 10)]"
  shows "summary runtime_311 rs =
           Inr (Stats \<lparr>count = 3, avg_offset = 7205759403792795 / 36028797018963968,
                       max_offset = float_literal (3 / 10),
                       min_offset = float_literal (1 / 10),
                       std_dev = 5883477916184625 / 72057594037927936,
                       avg_delay = fl (rt_sum runtime_311 (map delay rs) / 3),
                       classification = ACCURATE\<rparr>)"
proof -
  have len: "length rs = 3" using arg_cong [OF o, of length] by simp
  then have ne: "rs \<noteq> []" by auto
  have n: "3 = float_of_int (int (length rs))" by (simp add: len float_of_int_exact)
  have avg: "7205759403792795 / 36028797018963968 = fl (rt_sum runtime_311 (map offset rs) / 3)"
    unfolding o by (rule scenario_avg)
  have var: "7686143364045645 / 1152921504606846976
     = fl (rt_sum runtime_311
             (map (\<lambda>x. rt_square runtime_311 (float_sub x (7205759403792795 / 36028797018963968)))
                (map offset rs)) / 3)"
    unfolding o by (rule scenario_var)
  have mx: "Max (set (map offset rs)) = float_literal (3 / 10)"
    unfolding o literal_values by simp
  have mn: "Min (set (map offset rs)) = float_literal (1 / 10)"
    unfolding o literal_values by simp
  have cl: "classify (7205759403792795 / 36028797018963968) = ACCURATE"
    by (simp add: classify_iff)
  show ?thesis
    using summary_value [OF rt_ok_311 ne n avg var]
    by (simp only: mx mn cl std_dev_value len)
qed

section \<open>The timestamp codec: claims\<close>

text \<open>
  C3.  For every 8-byte input, read as a big-endian unsigned 32-bit number of seconds
  followed by a big-endian unsigned 32-bit fraction, \<open>get_ntp_time\<close> returns
  \<open>(seconds - 2208988800) + fraction / 2^32\<close> as a float: the conversion of the
  integer, the division by \<open>2^32\<close> and the addition of the source together round the
  exact value once to binary64.  The function depends on its argument only.
\<close>

theorem get_ntp_time_value:
  assumes "length bs = 8"
  shows "get_ntp_time bs =
           Inr (fl (of_int (be_uint (take 4 bs) - 2208988800)
                    + of_int (be_uint (drop 4 bs)) / 2 ^ 32))"
proof -
  have r1: "0 \<le> be_uint (take 4 bs) \<and> be_uint (take 4 bs) < 2 ^ 32"
    using assms by (intro be_uint_range) simp
  have r2: "0 \<le> be_uint (drop 4 bs) \<and> be_uint (drop 4 bs) < 2 ^ 32"
    using assms by (intro be_uint_range) simp
  show ?thesis
    using codec_value [of "be_uint (take 4 bs)" "be_uint (drop 4 bs)"] r1 r2
    by (simp add: get_ntp_time_def unpack_II_8 [OF assms] int_truediv_def)
qed

theorem get_ntp_time_value_witness:
  "length [131, 170, 126, 128, 128, 0, 0, 0 :: byte] = 8
   \<and> get_ntp_time [131, 170, 126, 128, 128, 0, 0, 0] = Inr (1 / 2)"
proof -
  have l: "length [131, 170, 126, 128, 128, 0, 0, 0 :: byte] = 8" by simp
  have v: "fl (of_int (be_uint (take 4 [131, 170, 126, 128, 128, 0, 0, 0]) - 2208988800)
               + of_int (be_uint (drop 4 [131, 170, 126, 128, 128, 0, 0, 0])) / 2 ^ 32)
           = 1 / 2"
    by code_simp
  from get_ntp_time_value [OF l]
  have "get_ntp_time [131, 170, 126, 128, 128, 0, 0, 0] = Inr (1 / 2)"
    unfolding v .
  with l show ?thesis by (intro conjI)
qed

text \<open>
  C7.  For every input of fewer than 8 bytes \<open>get_ntp_time\<close> fails with the decoding
  error of \<open>struct.unpack\<close> and returns no value.
\<close>

theorem get_ntp_time_short_input:
  "length bs < 8 \<Longrightarrow> get_ntp_time bs = Inl StructError"
  by (simp add: get_ntp_time_wrong_length)

theorem get_ntp_time_short_input_witness:
  "length [1, 2, 3 :: byte] < 8 \<and> get_ntp_time [1, 2, 3] = Inl StructError"
  using get_ntp_time_short_input [of "[1, 2, 3]"] by simp

text \<open>
  C8 as stated fails: for the seconds value 3282730624 and the fraction 3 the decoded
  value is exactly \<open>2^30\<close>, which is \<open>3 / 2^32\<close> away from the exact value, more than
  the claimed \<open>1 / 2^32\<close>.
\<close>

theorem codec_roundtrip_exceeds_claimed_bound:
  "get_ntp_time (pack_II 3282730624 3) = Inr 1073741824
   \<and> 1 / 2 ^ 32 < \<bar>1073741824 - (real_of_int (3282730624 - 2208988800) + 3 / 2 ^ 32)\<bar>"
proof -
  have "get_ntp_time (pack_II 3282730624 3) = Inr 1073741824" by code_simp
  then show ?thesis by simp
qed

text \<open>
  C8, amended.  For every seconds value \<open>s\<close> and fraction \<open>f\<close> with \<open>0 \<le> s < 2^32\<close> and
  \<open>0 \<le> f < 2^32\<close>, decoding the eight big-endian bytes of the pair yields a value within
  \<open>1 / 2^22\<close> of \<open>(s - 2208988800) + f / 2^32\<close>: half the spacing of binary64 numbers
  between \<open>2^31\<close> and \<open>2^32\<close>.
\<close>

theorem codec_roundtrip_error:
  assumes "0 \<le> s" "s < 2 ^ 32" "0 \<le> f" "f < 2 ^ 32"
  shows "\<exists>v. get_ntp_time (pack_II s f) = Inr v
             \<and> \<bar>v - (of_int (s - 2208988800) + of_int f / 2 ^ 32)\<bar> \<le> 1 / 2 ^ 22"
proof -
  define x :: real where "x = of_int (s - 2208988800) + of_int f / 2 ^ 32"
  have g: "get_ntp_time (pack_II s f) = Inr (fl x)"
    using codec_value [OF assms]
    by (simp add: get_ntp_time_def unpack_pack [OF assms] int_truediv_def x_def)
  have "0 \<le> real_of_int f / 2 ^ 32" "real_of_int f / 2 ^ 32 < 1" using assms by simp_all
  moreover have "- 2208988800 \<le> real_of_int (s - 2208988800)"
      "real_of_int (s - 2208988800) \<le> 2085978495" using assms by simp_all
  ultimately have "\<bar>x\<bar> < 2 ^ 32" unfolding x_def by simp
  then have "\<bar>fl x - x\<bar> \<le> 1 / 2 ^ 22" by (rule fl_error_small)
  then show ?thesis using g unfolding x_def by blast
qed

theorem codec_roundtrip_error_witness:
  "(0::int) \<le> 3282730624 \<and> (3282730624::int) < 2 ^ 32 \<and> (0::int) \<le> 3 \<and> (3::int) < 2 ^ 32
   \<and> (\<exists>v. get_ntp_time (pack_II 3282730624 3) = Inr v
          \<and> \<bar>v - (of_int (3282730624 - 2208988800) + of_int 3 / 2 ^ 32)\<bar> \<le> 1 / 2 ^ 22)"
  using codec_roundtrip_error [of 3282730624 3] by simp

text \<open>The amended bound is attained: seconds 0 and fraction \<open>2^10\<close> decode to
  \<open>- 2208988800\<close>, exactly \<open>1 / 2^22\<close> below the exact value.\<close>

lemma codec_bound_attained:
  "get_ntp_time (pack_II 0 1024) = Inr (- 2208988800)"
  by code_simp

section \<open>The calculator: claims\<close>

text \<open>
  C2 as stated fails on the known-value scenario: for \<open>t1 = 1000.0\<close>, \<open>t2 = 1000.5\<close>,
  \<open>t3 = 1000.6\<close>, \<open>t4 = 1000.2\<close> the delay is not the float \<open>0.1\<close> and the offset is
  not the float \<open>0.45\<close>.
\<close>

theorem known_value_scenario_not_exact:
  "calc_delay (float_literal 1000) (float_literal (10005 / 10)) (float_literal (10006 / 10))
     (float_literal (10002 / 10)) \<noteq> float_literal (1 / 10)
   \<and> calc_offset (float_literal 1000) (float_literal (10005 / 10)) (float_literal (10006 / 10))
     (float_literal (10002 / 10)) \<noteq> Inr (float_literal (45 / 100))"
  by code_simp

text \<open>
  C2, amended.  For every four timestamps the calculator returns the delay
  \<open>(t4 - t1) - (t3 - t2)\<close> and the offset \<open>((t2 - t1) + (t3 - t4)) / 2\<close> with each
  operation rounded to binary64.  In the known-value scenario the delay is
  \<open>879609302221 / 2^43\<close> (printed \<open>0.10000000000002274\<close>) and the offset is
  \<open>7916483719987 / 2^44\<close> (printed \<open>0.44999999999998863\<close>): within \<open>10^-13\<close> of \<open>0.1\<close>
  and \<open>0.45\<close>, and equal to neither.
\<close>

theorem calc_formulas_binary64:
  "calc_delay t1 t2 t3 t4 = fl (fl (t4 - t1) - fl (t3 - t2))
   \<and> calc_offset t1 t2 t3 t4 = Inr (fl (fl (fl (t2 - t1) + fl (t3 - t4)) / 2))
   \<and> calc_delay (float_literal 1000) (float_literal (10005 / 10)) (float_literal (10006 / 10))
        (float_literal (10002 / 10)) = 879609302221 / 8796093022208
   \<and> calc_offset (float_literal 1000) (float_literal (10005 / 10)) (float_literal (10006 / 10))
        (float_literal (10002 / 10)) = Inr (7916483719987 / 17592186044416)
   \<and> \<bar>879609302221 / 8796093022208 - 1 / 10\<bar> < (1 / 10 ^ 13 :: real)
   \<and> \<bar>7916483719987 / 17592186044416 - 45 / 100\<bar> < (1 / 10 ^ 13 :: real)"
proof -
  have two: "float_of_int 2 = 2" by (simp add: float_of_int_exact)
  have a: "calc_delay t1 t2 t3 t4 = fl (fl (t4 - t1) - fl (t3 - t2))"
    by (simp add: calc_delay_def float_sub_def)
  have b: "calc_offset t1 t2 t3 t4 = Inr (fl (fl (fl (t2 - t1) + fl (t3 - t4)) / 2))"
    by (simp add: calc_offset_def float_truediv_def float_add_def float_sub_def two)
  have c: "calc_delay (float_literal 1000) (float_literal (10005 / 10))
             (float_literal (10006 / 10)) (float_literal (10002 / 10))
           = 879609302221 / 8796093022208"
    by code_simp
  have d: "calc_offset (float_literal 1000) (float_literal (10005 / 10))
             (float_literal (10006 / 10)) (float_literal (10002 / 10))
           = Inr (7916483719987 / 17592186044416)"
    by code_simp
  have e: "\<bar>879609302221 / 8796093022208 - 1 / 10\<bar> < (1 / 10 ^ 13 :: real)" by simp
  have f: "\<bar>7916483719987 / 17592186044416 - 45 / 100\<bar> < (1 / 10 ^ 13 :: real)" by simp
  from a b c d e f show ?thesis by (intro conjI)
qed

section \<open>One exchange: claims\<close>

text \<open>
  C1 as stated fails: a reply of zero bytes is shorter than 48 bytes, and the exchange
  does not fail on it.  The body of the \<open>try\<close> ends without an exception, and the
  iteration prints nothing.
\<close>

theorem empty_reply_raises_nothing:
  "fst (try_body \<lparr>t1_clock = 0, net = Received [], t4_clock = 0, progress_raises = None\<rparr>
          \<lparr>sequence = 1, results = [], console = [], sleeps = []\<rparr>) = None
   \<and> poll_iteration [] 1 \<lparr>t1_clock = 0, net = Received [], t4_clock = 0, progress_raises = None\<rparr>
         \<lparr>sequence = 0, results = [], console = [], sleeps = []\<rparr>
       = (False, \<lparr>sequence = 1, results = [], console = [], sleeps = [1]\<rparr>)"
  by (simp add: poll_iteration_def try_body_def recvfrom_def time_sleep_def)

text \<open>
  C1, amended.  For every reply datagram of 1 to 47 bytes the exchange fails with the
  decoding error of the codec (\<open>struct.error\<close>; the program has no separate condition
  for a malformed reply), the state is as before the exchange, so no sample is appended,
  and the iteration reports the error with the generic error notice and goes on to the
  sleep.  The decoding is attempted: a reply of 40 to 47 bytes has its receive timestamp
  decoded before the transmit timestamp fails, a shorter one fails at the receive
  timestamp.
\<close>

theorem short_reply_generic_error:
  assumes "net tk = Received datagram" and "0 < length datagram" and "length datagram < 48"
  shows "try_body tk s = (Some StructError, s)
         \<and> poll_iteration target_server interval tk s
           = (False, s\<lparr>sequence := sequence s + 1,
                       console := console s @ [ErrorNotice (sequence s + 1) StructError],
                       sleeps := sleeps s @ [interval]\<rparr>)
         \<and> (40 \<le> length datagram \<longrightarrow> (\<exists>t2. get_ntp_time (py_slice 32 40 datagram) = Inr t2))
         \<and> (length datagram < 40 \<longrightarrow> get_ntp_time (py_slice 32 40 datagram) = Inl StructError)"
proof -
  have d: "recvfrom BUF_SIZE datagram = datagram"
    using assms(3) by (simp add: recvfrom_def BUF_SIZE_def)
  have ne: "datagram \<noteq> []" using assms(2) by auto
  have l2: "length (py_slice 40 48 datagram) \<noteq> 8"
    using assms(3) by (simp add: length_py_slice)
  have t3: "get_ntp_time (py_slice 40 48 datagram) = Inl StructError"
    using l2 by (rule get_ntp_time_wrong_length)
  have first: "(40 \<le> length datagram \<longrightarrow> (\<exists>t2. get_ntp_time (py_slice 32 40 datagram) = Inr t2))
         \<and> (length datagram < 40 \<longrightarrow> get_ntp_time (py_slice 32 40 datagram) = Inl StructError)"
    by (auto simp: length_py_slice intro!: get_ntp_time_8 get_ntp_time_wrong_length)
  have body: "try_body tk s = (Some StructError, s)" for s
  proof (cases "40 \<le> length datagram")
    case True
    then obtain t2 where "get_ntp_time (py_slice 32 40 datagram) = Inr t2"
      using first by blast
    then show ?thesis by (simp add: try_body_def assms(1) d ne t3)
  next
    case False
    then have "get_ntp_time (py_slice 32 40 datagram) = Inl StructError"
      using first by simp
    then show ?thesis by (simp add: try_body_def assms(1) d ne)
  qed
  have "poll_iteration target_server interval tk s
           = (False, s\<lparr>sequence := sequence s + 1,
                       console := console s @ [ErrorNotice (sequence s + 1) StructError],
                       sleeps := sleeps s @ [interval]\<rparr>)"
    by (simp add: poll_iteration_def body handle_exn_def print_line_def time_sleep_def)
  then show ?thesis using body first by blast
qed

theorem short_reply_generic_error_witness:
  "net \<lparr>t1_clock = 0, net = Received (replicate 10 0), t4_clock = 0, progress_raises = None\<rparr>
     = Received (replicate 10 0)
   \<and> 0 < length (replicate 10 (0::byte)) \<and> length (replicate 10 (0::byte)) < 48
   \<and> try_body \<lparr>t1_clock = 0, net = Received (replicate 10 0), t4_clock = 0, progress_raises = None\<rparr>
         \<lparr>sequence = 1, results = [], console = [], sleeps = []\<rparr>
       = (Some StructError, \<lparr>sequence = 1, results = [], console = [], sleeps = []\<rparr>)
   \<and> get_ntp_time (py_slice 32 40 (replicate 10 0)) = Inl StructError
   \<and> net \<lparr>t1_clock = 0, net = Received (replicate 44 0), t4_clock = 0, progress_raises = None\<rparr>
     = Received (replicate 44 0)
   \<and> 40 \<le> length (replicate 44 (0::byte)) \<and> length (replicate 44 (0::byte)) < 48
   \<and> try_body \<lparr>t1_clock = 0, net = Received (replicate 44 0), t4_clock = 0, progress_raises = None\<rparr>
         \<lparr>sequence = 1, results = [], console = [], sleeps = []\<rparr>
       = (Some StructError, \<lparr>sequence = 1, results = [], console = [], sleeps = []\<rparr>)
   \<and> (\<exists>t2. get_ntp_time (py_slice 32 40 (replicate 44 0)) = Inr t2)"
  using short_reply_generic_error
          [of "\<lparr>t1_clock = 0, net = Received (replicate 10 0), t4_clock = 0, progress_raises = None\<rparr>"
              "replicate 10 0" "\<lparr>sequence = 1, results = [], console = [], sleeps = []\<rparr>"]
        short_reply_generic_error
          [of "\<lparr>t1_clock = 0, net = Received (replicate 44 0), t4_clock = 0, progress_raises = None\<rparr>"
              "replicate 44 0" "\<lparr>sequence = 1, results = [], console = [], sleeps = []\<rparr>"]
  by simp

text \<open>
  C10.  When the reply datagram has zero bytes, the body of the \<open>try\<close> ends without an
  exception and without a change of the state; the iteration only advances the sequence
  counter and sleeps for the interval: no sample, no progress line, no notice.
\<close>

theorem empty_reply_skipped:
  "try_body (tk\<lparr>net := Received []\<rparr>) (s\<lparr>sequence := sequence s + 1\<rparr>)
     = (None, s\<lparr>sequence := sequence s + 1\<rparr>)
   \<and> poll_iteration target_server interval (tk\<lparr>net := Received []\<rparr>) s
     = (False, s\<lparr>sequence := sequence s + 1, sleeps := sleeps s @ [interval]\<rparr>)"
  by (simp add: poll_iteration_def try_body_def recvfrom_def time_sleep_def)




section \<open>Summary: claims\<close>

text \<open>
  C9.  When no sample has been recorded, the summary is \<open>NoData\<close> whatever the runtime:
  no division is reached, so no \<open>ZeroDivisionError\<close>, and the handler prints the banner,
  the line "No data collected." and the closing rule, none of which carries a number.
\<close>

theorem empty_summary_no_data:
  assumes "results s = []"
  shows "summary rt (results s) = Inr NoData
         \<and> show_summary rt target_server s
           = Inr (s\<lparr>console := console s @ [SummaryBanner, NoDataLine, ClosingRule]\<rparr>)"
  using assms by (simp add: summary_def show_summary_def print_line_def report_lines_def)

theorem empty_summary_no_data_witness:
  "results (initial_session [] 1) = []
   \<and> show_summary runtime_311 [] (initial_session [] 1)
       = Inr ((initial_session [] 1)
                \<lparr>console := console (initial_session [] 1)
                              @ [SummaryBanner, NoDataLine, ClosingRule]\<rparr>)"
  using empty_summary_no_data [of "initial_session [] 1" runtime_311 "[]"]
  by (simp add: initial_session_def)

text \<open>
  C5.  For every non-empty collection of samples the summary is classified \<open>ACCURATE\<close>
  exactly when the absolute value of the average offset is at most \<open>0.5\<close>, and
  \<open>DRIFTING\<close> otherwise; an average of \<open>0.5\<close> is \<open>ACCURATE\<close>, one of \<open>0.500001\<close> is
  \<open>DRIFTING\<close>.
\<close>

theorem classification_threshold:
  assumes "rt_ok rt" and "rs \<noteq> []"
  shows "(\<exists>st. summary rt rs = Inr (Stats st)
              \<and> avg_offset st = fl (rt_sum rt (map offset rs) / float_of_int (int (length rs)))
              \<and> (classification st = ACCURATE \<longleftrightarrow> \<bar>avg_offset st\<bar> \<le> 1 / 2)
              \<and> (classification st = DRIFTING \<longleftrightarrow> 1 / 2 < \<bar>avg_offset st\<bar>))
         \<and> classify (float_literal (1 / 2)) = ACCURATE
         \<and> classify (float_literal (500001 / 1000000)) = DRIFTING"
proof -
  have g: "\<exists>st. summary rt rs = Inr (Stats st)
              \<and> avg_offset st = fl (rt_sum rt (map offset rs) / float_of_int (int (length rs)))
              \<and> (classification st = ACCURATE \<longleftrightarrow> \<bar>avg_offset st\<bar> \<le> 1 / 2)
              \<and> (classification st = DRIFTING \<longleftrightarrow> 1 / 2 < \<bar>avg_offset st\<bar>)"
    using summary_value [OF assms refl refl refl]
    by (simp add: classify_iff classify_iff_drifting)
  have a: "classify (float_literal (1 / 2)) = ACCURATE" by code_simp
  have b: "classify (float_literal (500001 / 1000000)) = DRIFTING" by code_simp
  from g a b show ?thesis by (intro conjI)
qed

theorem classification_threshold_witness:
  "rt_ok runtime_311 \<and> [\<lparr>offset = 1 / 2, delay = 0\<rparr>] \<noteq> []
   \<and> (\<exists>st. summary runtime_311 [\<lparr>offset = 1 / 2, delay = 0\<rparr>] = Inr (Stats st)
          \<and> classification st = ACCURATE)"
proof -
  have v: "fl (rt_sum runtime_311 (map offset [\<lparr>offset = 1 / 2, delay = 0\<rparr>])
               / float_of_int (int (length [\<lparr>offset = 1 / 2, delay = 0\<rparr>]))) = 1 / 2"
    by code_simp
  have ne: "[\<lparr>offset = 1 / 2, delay = 0 :: real\<rparr>] \<noteq> []" by simp
  from classification_threshold [OF rt_ok_311 ne] v rt_ok_311 ne show ?thesis by auto
qed

text \<open>
  C4 as stated fails on the aggregate scenario: for the offsets \<open>0.1\<close>, \<open>0.2\<close>, \<open>0.3\<close>
  the average offset is \<open>7205759403792795 / 2^55\<close> (printed \<open>0.20000000000000004\<close>), which
  is not \<open>0.2\<close>, neither the float nor the real number.
\<close>

theorem aggregate_scenario_not_exact:
  "summary runtime_311
     [\<lparr>offset = float_literal (1 / 10), delay = 0\<rparr>,
      \<lparr>offset = float_literal (2 / 10), delay = 0\<rparr>,
      \<lparr>offset = float_literal (3 / 10), delay = 0\<rparr>]
    = Inr (Stats \<lparr>count = 3, avg_offset = 7205759403792795 / 36028797018963968,
                  max_offset = float_literal (3 / 10), min_offset = float_literal (1 / 10),
                  std_dev = 5883477916184625 / 72057594037927936, avg_delay = 0,
                  classification = ACCURATE\<rparr>)
   \<and> 7205759403792795 / 36028797018963968 \<noteq> float_literal (2 / 10)
   \<and> 7205759403792795 / 36028797018963968 \<noteq> (2 / 10 :: real)"
proof -
  have d: "fl (rt_sum runtime_311
                 (map delay [\<lparr>offset = float_literal (1 / 10), delay = 0\<rparr>,
                             \<lparr>offset = float_literal (2 / 10), delay = 0\<rparr>,
                             \<lparr>offset = float_literal (3 / 10), delay = 0\<rparr>]) / 3) = 0"
    by code_simp
  have "summary runtime_311
     [\<lparr>offset = float_literal (1 / 10), delay = 0\<rparr>,
      \<lparr>offset = float_literal (2 / 10), delay = 0\<rparr>,
      \<lparr>offset = float_literal (3 / 10), delay = 0\<rparr>]
    = Inr (Stats \<lparr>count = 3, avg_offset = 7205759403792795 / 36028797018963968,
                  max_offset = float_literal (3 / 10), min_offset = float_literal (1 / 10),
                  std_dev = 5883477916184625 / 72057594037927936, avg_delay = 0,
                  classification = ACCURATE\<rparr>)"
    using scenario_summary
            [of "[\<lparr>offset = float_literal (1 / 10), delay = 0\<rparr>,
                  \<lparr>offset = float_literal (2 / 10), delay = 0\<rparr>,
                  \<lparr>offset = float_literal (3 / 10), delay = 0\<rparr>]"]
    unfolding d by simp
  moreover have "7205759403792795 / 36028797018963968 \<noteq> float_literal (2 / 10)"
    unfolding literal_values by simp
  moreover have "7205759403792795 / 36028797018963968 \<noteq> (2 / 10 :: real)" by simp
  ultimately show ?thesis by (intro conjI)
qed

text \<open>With compensated summation the average of the scenario is the float just below
  \<open>0.2\<close> (printed \<open>0.19999999999999998\<close>), not \<open>0.2\<close> either.\<close>

lemma scenario_avg_compensated_not_exact:
  "fl (rt_sum runtime_312 [float_literal (1 / 10), float_literal (2 / 10), float_literal (3 / 10)]
         / 3) \<noteq> float_literal (2 / 10)"
  unfolding scenario_avg_compensated unfolding literal_values by simp

text \<open>
  C4, amended.  For every non-empty sequence of samples the summary has the count
  \<open>len(samples)\<close>, the maximum and the minimum of the offsets, and, each operation rounded
  to binary64 and the sums and squares as the runtime computes them, the mean of the
  offsets, the mean of the delays and the square root of the mean of the squared
  deviations from the average offset, all three with the denominator \<open>count\<close> (as a
  float, which is the count itself below \<open>2^53\<close>).  For the offsets \<open>0.1\<close>, \<open>0.2\<close>,
  \<open>0.3\<close>, summed from left to right and squared with correct rounding, the minimum is
  \<open>0.1\<close>, the maximum is \<open>0.3\<close>, the average offset is \<open>7205759403792795 / 2^55\<close> and the
  standard deviation is \<open>5883477916184625 / 2^56\<close>: within \<open>10^-16\<close> of \<open>0.2\<close> and of
  \<open>sqrt(((0.1)^2 + 0 + (0.1)^2) / 3)\<close>.
\<close>

theorem summary_statistics:
  assumes "rt_ok rt" and "rs \<noteq> []"
  shows "(\<exists>st. summary rt rs = Inr (Stats st)
            \<and> count st = length rs
            \<and> avg_offset st
                = fl (rt_sum rt (map offset rs) / float_of_int (int (count st)))
            \<and> max_offset st = Max (set (map offset rs))
            \<and> min_offset st = Min (set (map offset rs))
            \<and> avg_delay st
                = fl (rt_sum rt (map delay rs) / float_of_int (int (count st)))
            \<and> std_dev st
                = fl (sqrt (fl (rt_sum rt (map (\<lambda>x. rt_square rt (fl (x - avg_offset st)))
                                             (map offset rs))
                                / float_of_int (int (count st))))))
       \<and> (length rs < 2 ^ 53 \<longrightarrow> float_of_int (int (length rs)) = real (length rs))
       \<and> (map offset rs3
             = [float_literal (1 / 10), float_literal (2 / 10), float_literal (3 / 10)] \<longrightarrow>
           (\<exists>st. summary runtime_311 rs3 = Inr (Stats st)
              \<and> count st = 3
              \<and> avg_offset st = 7205759403792795 / 36028797018963968
              \<and> \<bar>avg_offset st - 2 / 10\<bar> < 1 / 10 ^ 16
              \<and> min_offset st = float_literal (1 / 10)
              \<and> max_offset st = float_literal (3 / 10)
              \<and> std_dev st = 5883477916184625 / 72057594037927936
              \<and> \<bar>std_dev st - sqrt (((1 / 10)\<^sup>2 + 0 + (1 / 10)\<^sup>2) / 3)\<bar> < 1 / 10 ^ 16))"
proof -
  have general: "\<exists>st. summary rt rs = Inr (Stats st)
            \<and> count st = length rs
            \<and> avg_offset st
                = fl (rt_sum rt (map offset rs) / float_of_int (int (count st)))
            \<and> max_offset st = Max (set (map offset rs))
            \<and> min_offset st = Min (set (map offset rs))
            \<and> avg_delay st
                = fl (rt_sum rt (map delay rs) / float_of_int (int (count st)))
            \<and> std_dev st
                = fl (sqrt (fl (rt_sum rt (map (\<lambda>x. rt_square rt (fl (x - avg_offset st)))
                                             (map offset rs))
                                / float_of_int (int (count st)))))"
    using summary_value [OF assms refl refl refl]
    by (simp add: float_sub_def del: map_map)
  have denominator: "float_of_int (int (length rs)) = real (length rs)"
    if "length rs < 2 ^ 53"
  proof -
    have "\<bar>int (length rs)\<bar> < 2 ^ 53" using that by simp
    then show ?thesis by (simp add: float_of_int_exact)
  qed
  have s: "sqrt (((1 / 10)\<^sup>2 + 0 + (1 / 10)\<^sup>2) / 3) = sqrt (1 / 150)"
    by (simp add: power2_eq_square)
  have a: "\<bar>7205759403792795 / 36028797018963968 - 2 / 10\<bar> < (1 / 10 ^ 16 :: real)"
    by simp
  have scenario: "\<exists>st. summary runtime_311 rs3 = Inr (Stats st)
              \<and> count st = 3
              \<and> avg_offset st = 7205759403792795 / 36028797018963968
              \<and> \<bar>avg_offset st - 2 / 10\<bar> < 1 / 10 ^ 16
              \<and> min_offset st = float_literal (1 / 10)
              \<and> max_offset st = float_literal (3 / 10)
              \<and> std_dev st = 5883477916184625 / 72057594037927936
              \<and> \<bar>std_dev st - sqrt (((1 / 10)\<^sup>2 + 0 + (1 / 10)\<^sup>2) / 3)\<bar> < 1 / 10 ^ 16"
    if "map offset rs3
          = [float_literal (1 / 10), float_literal (2 / 10), float_literal (3 / 10)]"
    using scenario_summary [OF that] a std_dev_close unfolding s by simp
  from general denominator scenario show ?thesis by blast
qed

theorem summary_statistics_witness:
  "rt_ok runtime_311 \<and> [\<lparr>offset = 1 / 2, delay = 1 / 4\<rparr>] \<noteq> []
   \<and> length [\<lparr>offset = 1 / 2, delay = 1 / 4 :: real\<rparr>] < 2 ^ 53
   \<and> map offset [\<lparr>offset = float_literal (1 / 10), delay = 0\<rparr>,
                 \<lparr>offset = float_literal (2 / 10), delay = 0\<rparr>,
                 \<lparr>offset = float_literal (3 / 10), delay = 0\<rparr>]
       = [float_literal (1 / 10), float_literal (2 / 10), float_literal (3 / 10)]
   \<and> (\<exists>st. summary runtime_311 [\<lparr>offset = 1 / 2, delay = 1 / 4\<rparr>] = Inr (Stats st)
          \<and> count st = 1 \<and> max_offset st = 1 / 2 \<and> min_offset st = 1 / 2)
   \<and> float_of_int (int (length [\<lparr>offset = 1 / 2, delay = 1 / 4 :: real\<rparr>])) = 1
   \<and> (\<exists>st. summary runtime_311
               [\<lparr>offset = float_literal (1 / 10), delay = 0\<rparr>,
                \<lparr>offset = float_literal (2 / 10), delay = 0\<rparr>,
                \<lparr>offset = float_literal (3 / 10), delay = 0\<rparr>] = Inr (Stats st)
          \<and> avg_offset st = 7205759403792795 / 36028797018963968)"
proof -
  have ne: "[\<lparr>offset = 1 / 2, delay = 1 / 4 :: real\<rparr>] \<noteq> []" by simp
  have len: "length [\<lparr>offset = 1 / 2, delay = 1 / 4 :: real\<rparr>] < 2 ^ 53" by simp
  have o: "map offset [\<lparr>offset = float_literal (1 / 10), delay = 0\<rparr>,
                 \<lparr>offset = float_literal (2 / 10), delay = 0\<rparr>,
                 \<lparr>offset = float_literal (3 / 10), delay = 0\<rparr>]
       = [float_literal (1 / 10), float_literal (2 / 10), float_literal (3 / 10)]" by simp
  from summary_statistics [OF rt_ok_311 ne,
        of "[\<lparr>offset = float_literal (1 / 10), delay = 0\<rparr>,
             \<lparr>offset = float_literal (2 / 10), delay = 0\<rparr>,
             \<lparr>offset = float_literal (3 / 10), delay = 0\<rparr>]"]
  have "(\<exists>st. summary runtime_311 [\<lparr>offset = 1 / 2, delay = 1 / 4\<rparr>] = Inr (Stats st)
          \<and> count st = 1 \<and> max_offset st = 1 / 2 \<and> min_offset st = 1 / 2)
   \<and> float_of_int (int (length [\<lparr>offset = 1 / 2, delay = 1 / 4 :: real\<rparr>])) = 1
   \<and> (\<exists>st. summary runtime_311
               [\<lparr>offset = float_literal (1 / 10), delay = 0\<rparr>,
                \<lparr>offset = float_literal (2 / 10), delay = 0\<rparr>,
                \<lparr>offset = float_literal (3 / 10), delay = 0\<rparr>] = Inr (Stats st)
          \<and> avg_offset st = 7205759403792795 / 36028797018963968)"
    using o len by auto
  with rt_ok_311 ne len o show ?thesis by blast
qed

end
